theory Spec2Isabelle
  imports Main "HOL-Library.AList"
begin

unbundle bit_operations_syntax

section \<open>JavaScript values, errors and objects used as dictionaries\<close>

text \<open>
  A JavaScript string is a sequence of UTF-16 code units. A \<^typ>\<open>char\<close> of the model is
  one code unit below 256 (the Latin-1 range); every name that the two modules write
  out as a literal is ASCII. The code of a unit is \<open>of_char c\<close>.

  A runtime value is a \<open>jsvalue\<close>. The two modules only look at the type of a value,
  at whether it is \<open>null\<close> or \<open>undefined\<close>, and at whether it is the boolean \<open>true\<close>;
  the payload of numbers, objects, functions and symbols is kept abstract (\<open>'x\<close>).
\<close>

datatype 'x jsvalue =
    JNull
  | JUndefined
  | JBoolean bool
  | JNumber 'x
  | JString string
  | JObject 'x
  | JFunction 'x
  | JSymbol 'x

text \<open>The \<open>typeof\<close> operator; \<open>typeof null\<close> is \<open>"object"\<close>.\<close>

fun typeof :: "'x jsvalue \<Rightarrow> string" where
  "typeof JNull = ''object''"
| "typeof JUndefined = ''undefined''"
| "typeof (JBoolean b) = ''boolean''"
| "typeof (JNumber n) = ''number''"
| "typeof (JString s) = ''string''"
| "typeof (JObject r) = ''object''"
| "typeof (JFunction f) = ''function''"
| "typeof (JSymbol y) = ''symbol''"

text \<open>
  What a call can throw: the two failures of \<open>invariant\<close> in
  \<open>injectDOMPropertyConfig\<close>, each with the property name that is substituted for
  \<open>%s\<close> in its message, and the \<open>TypeError\<close> of calling a value that is not a function.
\<close>

datatype error =
    AlreadyInjected string
  | ValueCombination string
  | TypeError

fun isConfigurationError :: "error \<Rightarrow> bool" where
  "isConfigurationError (AlreadyInjected propName) = True"
| "isConfigurationError (ValueCombination propName) = True"
| "isConfigurationError TypeError = False"

text \<open>
  The registry of DOMProperty.js and the two caches of DOMMarkupOperations.js are plain
  objects (\<open>{}\<close>) used as dictionaries. Such an object is modelled by the map of its
  own properties, with what a plain object does for every key:
  \<^item> \<open>obj.hasOwnProperty(key)\<close> first looks \<open>hasOwnProperty\<close> up on the object itself.
    An own property of that name shadows the method of \<open>Object.prototype\<close>; the values
    these modules store (\<open>true\<close>, a descriptor object) are not functions, so the call
    throws a \<open>TypeError\<close>. Otherwise the call tells whether \<open>key\<close> is an own property.
  \<^item> \<open>obj[key] = v\<close> creates or overwrites an own property, but for the key
    \<open>__proto__\<close> it runs the setter inherited from \<open>Object.prototype\<close>: no own property
    appears.
\<close>

definition hasOwnProperty :: "(string \<rightharpoonup> 'v) \<Rightarrow> string \<Rightarrow> error + bool" where
  "hasOwnProperty obj key =
    (if obj ''hasOwnProperty'' \<noteq> None then Inl TypeError else Inr (obj key \<noteq> None))"

section \<open>DOMProperty.js\<close>

subsection \<open>Reserved props and bit masks\<close>

definition RESERVED_PROPS :: "string list" where
  "RESERVED_PROPS =
    [''children'', ''dangerouslySetInnerHTML'', ''autoFocus'', ''defaultValue'',
     ''defaultChecked'', ''innerHTML'', ''suppressContentEditableWarning'', ''style'']"

text \<open>
  Bit masks are integers; \<open>value & bitmask\<close> works on the low 32 bits, and every mask
  below fits in them, so the conjunction on \<^typ>\<open>int\<close> gives the same bits.
\<close>

definition checkMask :: "int \<Rightarrow> int \<Rightarrow> bool" where
  "checkMask value bitmask = ((value AND bitmask) = bitmask)"

definition MUST_USE_PROPERTY :: int where "MUST_USE_PROPERTY = 0x1"
definition HAS_BOOLEAN_VALUE :: int where "HAS_BOOLEAN_VALUE = 0x4"
definition HAS_NUMERIC_VALUE :: int where "HAS_NUMERIC_VALUE = 0x8"
definition HAS_POSITIVE_NUMERIC_VALUE :: int where "HAS_POSITIVE_NUMERIC_VALUE = 0x10 OR 0x8"
definition HAS_OVERLOADED_BOOLEAN_VALUE :: int where "HAS_OVERLOADED_BOOLEAN_VALUE = 0x20"
definition HAS_STRING_BOOLEAN_VALUE :: int where "HAS_STRING_BOOLEAN_VALUE = 0x40"

subsection \<open>The registry and injectDOMPropertyConfig\<close>

record PropertyInfo =
  mustUseProperty :: bool
  hasBooleanValue :: bool
  hasNumericValue :: bool
  hasPositiveNumericValue :: bool
  hasOverloadedBooleanValue :: bool
  hasStringBooleanValue :: bool

text \<open>
  \<open>DOMProperty.properties\<close>, the registry, is a plain object used as a dictionary from
  property names to descriptors: the map of its own properties.
  \<open>DOMProperty.properties[propName] = propertyInfo\<close> with the key \<open>__proto__\<close> makes the
  descriptor the prototype of the registry and stores no own property; the descriptor
  has the six facets as its own properties and inherits \<open>hasOwnProperty\<close> from
  \<open>Object.prototype\<close>, so later lookups of \<open>hasOwnProperty\<close> on the registry find the
  same method as before.

  A config is an object with an optional \<open>Properties\<close> object. \<open>Properties\<close> is given by the
  pairs that \<open>for (var propName in Properties)\<close> enumerates, in that order; an object
  enumerates each of its keys once. A bit mask is an integer, and \<open>null\<close> counts as 0.
\<close>

type_synonym properties = "string \<rightharpoonup> PropertyInfo"

definition assignPropertyInfo :: "properties \<Rightarrow> string \<Rightarrow> PropertyInfo \<Rightarrow> properties" where
  "assignPropertyInfo props propName propertyInfo =
    (if propName = ''__proto__'' then props else props(propName \<mapsto> propertyInfo))"

record DOMPropertyConfig =
  Properties :: "(string \<times> int) list option"

text \<open>The object literal \<open>propertyInfo\<close> of lines 101 to 117.\<close>

definition propertyInfoOf :: "int \<Rightarrow> PropertyInfo" where
  "propertyInfoOf propConfig =
    \<lparr> mustUseProperty = checkMask propConfig MUST_USE_PROPERTY,
      hasBooleanValue = checkMask propConfig HAS_BOOLEAN_VALUE,
      hasNumericValue = checkMask propConfig HAS_NUMERIC_VALUE,
      hasPositiveNumericValue = checkMask propConfig HAS_POSITIVE_NUMERIC_VALUE,
      hasOverloadedBooleanValue = checkMask propConfig HAS_OVERLOADED_BOOLEAN_VALUE,
      hasStringBooleanValue = checkMask propConfig HAS_STRING_BOOLEAN_VALUE \<rparr>"

text \<open>
  The sum of the second \<open>invariant\<close>: JavaScript adds the three booleans as 0 and 1.
\<close>

definition valueModeCount :: "PropertyInfo \<Rightarrow> nat" where
  "valueModeCount propertyInfo =
    of_bool (hasBooleanValue propertyInfo) + of_bool (hasNumericValue propertyInfo) +
    of_bool (hasOverloadedBooleanValue propertyInfo)"

text \<open>
  The loop of \<open>injectDOMPropertyConfig\<close>. The result is the exception that ended the
  call (\<open>None\<close> when it returned) and the registry the call leaves behind: the
  entries stored before the exception stay stored. The first \<open>invariant\<close> evaluates
  \<open>DOMProperty.properties.hasOwnProperty(propName)\<close> before it is called, so a
  \<open>TypeError\<close> of that call ends the loop.
\<close>

fun injectProperties :: "(string \<times> int) list \<Rightarrow> properties \<Rightarrow> error option \<times> properties" where
  "injectProperties [] props = (None, props)"
| "injectProperties ((propName, propConfig) # rest) props =
    (case hasOwnProperty props propName of
       Inl e \<Rightarrow> (Some e, props)
     | Inr True \<Rightarrow> (Some (AlreadyInjected propName), props)
     | Inr False \<Rightarrow>
         let propertyInfo = propertyInfoOf propConfig in
         if \<not> valueModeCount propertyInfo \<le> 1 then (Some (ValueCombination propName), props)
         else injectProperties rest (assignPropertyInfo props propName propertyInfo))"

text \<open>\<open>domPropertyConfig.Properties || {}\<close>: a config without \<open>Properties\<close> has no entry.\<close>

definition propertiesOf :: "DOMPropertyConfig \<Rightarrow> (string \<times> int) list" where
  "propertiesOf domPropertyConfig =
    (case Properties domPropertyConfig of None \<Rightarrow> [] | Some ps \<Rightarrow> ps)"

definition injectDOMPropertyConfig :: "DOMPropertyConfig \<Rightarrow> properties \<Rightarrow> error option \<times> properties" where
  "injectDOMPropertyConfig domPropertyConfig props =
    injectProperties (propertiesOf domPropertyConfig) props"

text \<open>
  Later calls, one config after the other, each on the registry the call before left
  behind (whether it returned or threw).
\<close>

definition injectAll :: "DOMPropertyConfig list \<Rightarrow> properties \<Rightarrow> properties" where
  "injectAll configs props = fold (\<lambda>config p. snd (injectDOMPropertyConfig config p)) configs props"

subsection \<open>Attribute name syntax\<close>

text \<open>The two character classes, as sets of code units.\<close>

definition ATTRIBUTE_NAME_START_CHAR :: "nat \<Rightarrow> bool" where
  "ATTRIBUTE_NAME_START_CHAR u =
    (u = of_char CHR '':'' \<or> (of_char CHR ''A'' \<le> u \<and> u \<le> of_char CHR ''Z'') \<or> u = of_char CHR ''_'' \<or>
     (of_char CHR ''a'' \<le> u \<and> u \<le> of_char CHR ''z'') \<or>
     (0x00C0 \<le> u \<and> u \<le> 0x00D6) \<or> (0x00D8 \<le> u \<and> u \<le> 0x00F6) \<or>
     (0x00F8 \<le> u \<and> u \<le> 0x02FF) \<or> (0x0370 \<le> u \<and> u \<le> 0x037D) \<or>
     (0x037F \<le> u \<and> u \<le> 0x1FFF) \<or> (0x200C \<le> u \<and> u \<le> 0x200D) \<or>
     (0x2070 \<le> u \<and> u \<le> 0x218F) \<or> (0x2C00 \<le> u \<and> u \<le> 0x2FEF) \<or>
     (0x3001 \<le> u \<and> u \<le> 0xD7FF) \<or> (0xF900 \<le> u \<and> u \<le> 0xFDCF) \<or>
     (0xFDF0 \<le> u \<and> u \<le> 0xFFFD))"

definition ATTRIBUTE_NAME_CHAR :: "nat \<Rightarrow> bool" where
  "ATTRIBUTE_NAME_CHAR u =
    (ATTRIBUTE_NAME_START_CHAR u \<or> u = of_char CHR ''-'' \<or> u = of_char CHR ''.'' \<or>
     (of_char CHR ''0'' \<le> u \<and> u \<le> of_char CHR ''9'') \<or> u = 0x00B7 \<or>
     (0x0300 \<le> u \<and> u \<le> 0x036F) \<or> (0x203F \<le> u \<and> u \<le> 0x2040))"

subsection \<open>The name tables and the built-in SVG config\<close>

definition attributeNames_literal :: "(string \<times> string) list" where
  "attributeNames_literal =
    [(''acceptCharset'', ''accept-charset''), (''className'', ''class''),
     (''htmlFor'', ''for''), (''httpEquiv'', ''http-equiv'')]"

text \<open>
  \<open>CAMELIZE\<close> is \<open>/[\-\:]([a-z])/g\<close>: a hyphen or a colon followed by a lower-case
  ASCII letter. \<open>capitalize\<close> gets the two matched characters and returns the second in
  upper case, which for a lower-case ASCII letter is the unit 32 below.
\<close>

definition CAMELIZE :: "char \<Rightarrow> char \<Rightarrow> bool" where
  "CAMELIZE c d =
    ((c = CHR ''-'' \<or> c = CHR '':'') \<and>
     (of_char CHR ''a'' :: nat) \<le> of_char d \<and> (of_char d :: nat) \<le> of_char CHR ''z'')"

definition capitalize :: "char \<Rightarrow> char \<Rightarrow> string" where
  "capitalize c d = [char_of ((of_char d :: nat) - 32)]"

text \<open>
  \<open>svgAttributeName.replace(CAMELIZE, capitalize)\<close>: the matches are found from left
  to right, and the search goes on behind each match.
\<close>

fun replace_CAMELIZE :: "string \<Rightarrow> string" where
  "replace_CAMELIZE (c # d # rest) =
    (if CAMELIZE c d then capitalize c d @ replace_CAMELIZE rest
     else c # replace_CAMELIZE (d # rest))"
| "replace_CAMELIZE s = s"

definition svgConfig_literal :: "(string \<times> int) list" where
  "svgConfig_literal =
    [(''autoReverse'', HAS_STRING_BOOLEAN_VALUE),
     (''externalResourcesRequired'', HAS_STRING_BOOLEAN_VALUE),
     (''preserveAlpha'', HAS_STRING_BOOLEAN_VALUE)]"

definition svgAttributeNames :: "string list" where
  "svgAttributeNames =
    [''accent-height'',
     ''alignment-baseline'',
     ''arabic-form'',
     ''baseline-shift'',
     ''cap-height'',
     ''clip-path'',
     ''clip-rule'',
     ''color-interpolation'',
     ''color-interpolation-filters'',
     ''color-profile'',
     ''color-rendering'',
     ''dominant-baseline'',
     ''enable-background'',
     ''fill-opacity'',
     ''fill-rule'',
     ''flood-color'',
     ''flood-opacity'',
     ''font-family'',
     ''font-size'',
     ''font-size-adjust'',
     ''font-stretch'',
     ''font-style'',
     ''font-variant'',
     ''font-weight'',
     ''glyph-name'',
     ''glyph-orientation-horizontal'',
     ''glyph-orientation-vertical'',
     ''horiz-adv-x'',
     ''horiz-origin-x'',
     ''image-rendering'',
     ''letter-spacing'',
     ''lighting-color'',
     ''marker-end'',
     ''marker-mid'',
     ''marker-start'',
     ''overline-position'',
     ''overline-thickness'',
     ''paint-order'',
     ''panose-1'',
     ''pointer-events'',
     ''rendering-intent'',
     ''shape-rendering'',
     ''stop-color'',
     ''stop-opacity'',
     ''strikethrough-position'',
     ''strikethrough-thickness'',
     ''stroke-dasharray'',
     ''stroke-dashoffset'',
     ''stroke-linecap'',
     ''stroke-linejoin'',
     ''stroke-miterlimit'',
     ''stroke-opacity'',
     ''stroke-width'',
     ''text-anchor'',
     ''text-decoration'',
     ''text-rendering'',
     ''underline-position'',
     ''underline-thickness'',
     ''unicode-bidi'',
     ''unicode-range'',
     ''units-per-em'',
     ''v-alphabetic'',
     ''v-hanging'',
     ''v-ideographic'',
     ''v-mathematical'',
     ''vector-effect'',
     ''vert-adv-y'',
     ''vert-origin-x'',
     ''vert-origin-y'',
     ''word-spacing'',
     ''writing-mode'',
     ''x-height'',
     ''xlink:actuate'',
     ''xlink:arcrole'',
     ''xlink:href'',
     ''xlink:role'',
     ''xlink:show'',
     ''xlink:title'',
     ''xlink:type'',
     ''xml:base'',
     ''xmlns:xlink'',
     ''xml:lang'',
     ''xml:space'']"

text \<open>
  The body of the \<open>forEach\<close> of lines 258 to 265, on the pair of \<open>attributeNames\<close> and
  \<open>svgConfig.Properties\<close>. An assignment to a key that an object already has replaces
  the value in place; a new key goes to the end of the enumeration.
\<close>

definition forEach_body ::
  "string \<Rightarrow> (string \<times> string) list \<times> (string \<times> int) list \<Rightarrow>
   (string \<times> string) list \<times> (string \<times> int) list" where
  "forEach_body svgAttributeName tables =
    (let reactName = replace_CAMELIZE svgAttributeName in
     (AList.update reactName svgAttributeName (fst tables),
      AList.update reactName 0 (snd tables)))"

definition moduleTables :: "(string \<times> string) list \<times> (string \<times> int) list" where
  "moduleTables = fold forEach_body svgAttributeNames (attributeNames_literal, svgConfig_literal)"

definition attributeNames :: "string \<rightharpoonup> string" where
  "attributeNames = map_of (fst moduleTables)"

definition svgConfig :: DOMPropertyConfig where
  "svgConfig = \<lparr> Properties = Some (snd moduleTables) \<rparr>"

text \<open>
  Line 415: the module injects \<open>svgConfig\<close> into the empty registry while it loads.
  \<open>initialProperties\<close> is the registry that every importer of the module finds.
\<close>

definition moduleInjection :: "error option \<times> properties" where
  "moduleInjection = injectDOMPropertyConfig svgConfig Map.empty"

definition initialProperties :: properties where
  "initialProperties = snd moduleInjection"

subsection \<open>The methods of DOMProperty\<close>

definition isReservedProp :: "string \<Rightarrow> bool" where
  "isReservedProp name = (name \<in> set RESERVED_PROPS)"

definition getPropertyInfo :: "properties \<Rightarrow> string \<Rightarrow> error + PropertyInfo option" where
  "getPropertyInfo props name =
    (case hasOwnProperty props name of
       Inl e \<Rightarrow> Inl e
     | Inr True \<Rightarrow> Inr (props name)
     | Inr False \<Rightarrow> Inr None)"

text \<open>
  \<open>String.prototype.toLowerCase\<close> on code units below 256: the ASCII capitals and the
  Latin-1 capitals U+00C0 to U+00DE without the multiplication sign U+00D7 move up by
  32; every other unit stays.
\<close>

definition toLowerCase_unit :: "char \<Rightarrow> char" where
  "toLowerCase_unit c =
    (let u = (of_char c :: nat) in
     if (0x41 \<le> u \<and> u \<le> 0x5A) \<or> (0xC0 \<le> u \<and> u \<le> 0xDE \<and> u \<noteq> 0xD7)
     then char_of (u + 32) else c)"

definition toLowerCase :: "string \<Rightarrow> string" where
  "toLowerCase s = map toLowerCase_unit s"

definition shouldAttributeAcceptBooleanValue :: "properties \<Rightarrow> string \<Rightarrow> error + bool" where
  "shouldAttributeAcceptBooleanValue props name =
    (if isReservedProp name then Inr True
     else
       case getPropertyInfo props name of
         Inl e \<Rightarrow> Inl e
       | Inr (Some propertyInfo) \<Rightarrow>
           Inr (hasBooleanValue propertyInfo \<or> hasStringBooleanValue propertyInfo \<or>
                hasOverloadedBooleanValue propertyInfo)
       | Inr None \<Rightarrow>
           let prefix = take 5 (toLowerCase name) in
           Inr (prefix = ''data-'' \<or> prefix = ''aria-''))"

text \<open>
  \<open>name[0]\<close> and \<open>name[1]\<close> are \<open>undefined\<close> past the end of the name, and then equal to
  no letter.
\<close>

definition shouldSetAttribute :: "properties \<Rightarrow> string \<Rightarrow> 'x jsvalue \<Rightarrow> error + bool" where
  "shouldSetAttribute props name value =
    (if isReservedProp name then Inr False
     else if (case name of
                c0 # c1 # rest \<Rightarrow>
                  (c0 = CHR ''o'' \<or> c0 = CHR ''O'') \<and> (c1 = CHR ''n'' \<or> c1 = CHR ''N'')
              | _ \<Rightarrow> False) then Inr False
     else if value = JNull then Inr True
     else if typeof value = ''boolean'' then shouldAttributeAcceptBooleanValue props name
     else if typeof value = ''undefined'' \<or> typeof value = ''number'' \<or>
             typeof value = ''string'' \<or> typeof value = ''object'' then Inr True
     else Inr False)"

text \<open>
  DOMMarkupOperations.js calls two more methods on the \<open>DOMProperty\<close> object,
  \<open>shouldIgnoreValue\<close> and \<open>getExpectedValueType\<close>. The object literal of lines 280 to
  411 has no property of either name, and the module adds none, so on the exported
  object both are \<open>undefined\<close>: a member is \<open>None\<close> when the object has no such
  property, and calling it throws a \<open>TypeError\<close>.
\<close>

definition DOMProperty_shouldIgnoreValue :: "(string \<Rightarrow> 'x jsvalue \<Rightarrow> bool) option" where
  "DOMProperty_shouldIgnoreValue = None"

definition DOMProperty_getExpectedValueType :: "(string \<Rightarrow> 'x jsvalue) option" where
  "DOMProperty_getExpectedValueType = None"

definition getAttributeName :: "string \<Rightarrow> string" where
  "getAttributeName propName =
    (case attributeNames propName of
       Some attributeName \<Rightarrow> attributeName
     | None \<Rightarrow> toLowerCase propName)"

definition getAttributeNamespace :: "string \<Rightarrow> string option" where
  "getAttributeNamespace propName =
    (if propName = ''xmlBase'' \<or> propName = ''xmlLang'' \<or> propName = ''xmlSpace''
     then Some ''http://www.w3.org/XML/1998/namespace''
     else if propName = ''xlinkActuate'' \<or> propName = ''xlinkArcrole'' \<or>
             propName = ''xlinkHref'' \<or> propName = ''xlinkRole'' \<or>
             propName = ''xlinkShow'' \<or> propName = ''xlinkTitle'' \<or>
             propName = ''xlinkType''
     then Some ''http://www.w3.org/1999/xlink''
     else None)"

section \<open>DOMMarkupOperations.js\<close>

subsection \<open>isAttributeNameSafe and its two caches\<close>

text \<open>
  \<open>VALID_ATTRIBUTE_NAME_REGEX.test\<close>: the pattern is anchored at both ends and has no
  flag, so it accepts exactly a start character followed by name characters.
\<close>

definition VALID_ATTRIBUTE_NAME_REGEX_test :: "string \<Rightarrow> bool" where
  "VALID_ATTRIBUTE_NAME_REGEX_test attributeName =
    (case attributeName of
       [] \<Rightarrow> False
     | c # cs \<Rightarrow>
         ATTRIBUTE_NAME_START_CHAR (of_char c) \<and>
         list_all (\<lambda>d. ATTRIBUTE_NAME_CHAR (of_char d)) cs)"

text \<open>
  The two caches are plain objects (\<open>{}\<close>) keyed by whatever attribute name a caller
  passes. \<open>cache[key] = true\<close> creates or overwrites an own property, but for the key
  \<open>__proto__\<close> it runs the setter inherited from \<open>Object.prototype\<close>, which ignores a
  value that is neither an object nor \<open>null\<close>: no own property appears.

  \<open>regexTests\<close> is not a variable of the module: it lists, in order, the names on which
  \<open>VALID_ATTRIBUTE_NAME_REGEX.test\<close> ran. The development-mode \<open>warning\<close> only logs.
\<close>

definition assignTrue :: "(string \<rightharpoonup> bool) \<Rightarrow> string \<Rightarrow> (string \<rightharpoonup> bool)" where
  "assignTrue cache key = (if key = ''__proto__'' then cache else cache(key \<mapsto> True))"

record attributeNameCaches =
  illegalAttributeNameCache :: "string \<rightharpoonup> bool"
  validatedAttributeNameCache :: "string \<rightharpoonup> bool"
  regexTests :: "string list"

definition emptyCaches :: attributeNameCaches where
  "emptyCaches =
    \<lparr> illegalAttributeNameCache = Map.empty, validatedAttributeNameCache = Map.empty,
      regexTests = [] \<rparr>"

definition isAttributeNameSafe ::
  "string \<Rightarrow> attributeNameCaches \<Rightarrow> (error + bool) \<times> attributeNameCaches" where
  "isAttributeNameSafe attributeName s =
    (case hasOwnProperty (validatedAttributeNameCache s) attributeName of
       Inl e \<Rightarrow> (Inl e, s)
     | Inr True \<Rightarrow> (Inr True, s)
     | Inr False \<Rightarrow>
         (case hasOwnProperty (illegalAttributeNameCache s) attributeName of
            Inl e \<Rightarrow> (Inl e, s)
          | Inr True \<Rightarrow> (Inr False, s)
          | Inr False \<Rightarrow>
              let tested = s\<lparr> regexTests := regexTests s @ [attributeName] \<rparr> in
              if VALID_ATTRIBUTE_NAME_REGEX_test attributeName
              then (Inr True,
                    tested\<lparr> validatedAttributeNameCache :=
                      assignTrue (validatedAttributeNameCache s) attributeName \<rparr>)
              else (Inr False,
                    tested\<lparr> illegalAttributeNameCache :=
                      assignTrue (illegalAttributeNameCache s) attributeName \<rparr>)))"

subsection \<open>The markup operations\<close>

text \<open>
  \<open>quoteAttributeValueForBrowser\<close> is a module of its own, outside these two files; the
  operations take it as the parameter \<open>quote\<close>, a function from values to strings.
\<close>

definition ID_ATTRIBUTE_NAME :: string where
  "ID_ATTRIBUTE_NAME = ''data-reactid''"

definition ROOT_ATTRIBUTE_NAME :: string where
  "ROOT_ATTRIBUTE_NAME = ''data-reactroot''"

definition createMarkupForID :: "('x jsvalue \<Rightarrow> string) \<Rightarrow> 'x jsvalue \<Rightarrow> string" where
  "createMarkupForID quote ident = ID_ATTRIBUTE_NAME @ ''='' @ quote ident"

definition createMarkupForRoot :: string where
  "createMarkupForRoot = ROOT_ATTRIBUTE_NAME @ [CHR ''='', CHR 0x22, CHR 0x22]"

text \<open>
  \<open>createMarkupForProperty\<close>: the condition calls \<open>DOMProperty.shouldIgnoreValue\<close> only
  when \<open>shouldSetAttribute\<close> has returned true.
\<close>

definition createMarkupForProperty ::
  "('x jsvalue \<Rightarrow> string) \<Rightarrow> properties \<Rightarrow> string \<Rightarrow> 'x jsvalue \<Rightarrow> error + string option" where
  "createMarkupForProperty quote props name value =
    (case shouldSetAttribute props name value of
       Inl e \<Rightarrow> Inl e
     | Inr False \<Rightarrow> Inr None
     | Inr True \<Rightarrow>
         (case DOMProperty_shouldIgnoreValue of
            None \<Rightarrow> Inl TypeError
          | Some shouldIgnoreValue \<Rightarrow>
              if shouldIgnoreValue name value then Inr None
              else
                let attributeName = getAttributeName name in
                (case (DOMProperty_getExpectedValueType :: (string \<Rightarrow> 'x jsvalue) option) of
                   None \<Rightarrow> Inl TypeError
                 | Some getExpectedValueType \<Rightarrow>
                     let expectedType = getExpectedValueType name in
                     if expectedType = JString ''boolean'' \<or>
                        (expectedType = JString ''overloadedBoolean'' \<and> value = JBoolean True)
                     then Inr (Some (attributeName @ [CHR ''='', CHR 0x22, CHR 0x22]))
                     else Inr (Some (attributeName @ ''='' @ quote value)))))"

text \<open>
  \<open>!isAttributeNameSafe(name) || value == null\<close>: the name is checked first, whatever
  the value is; \<open>value == null\<close> holds for \<open>null\<close> and \<open>undefined\<close> only.
\<close>

definition createMarkupForCustomAttribute ::
  "('x jsvalue \<Rightarrow> string) \<Rightarrow> string \<Rightarrow> 'x jsvalue \<Rightarrow> attributeNameCaches \<Rightarrow>
   (error + string) \<times> attributeNameCaches" where
  "createMarkupForCustomAttribute quote name value s =
    (case isAttributeNameSafe name s of
       (Inl e, s') \<Rightarrow> (Inl e, s')
     | (Inr safe, s') \<Rightarrow>
         if \<not> safe \<or> value = JNull \<or> value = JUndefined then (Inr [], s')
         else (Inr (name @ ''='' @ quote value), s'))"

text \<open>
  The caches after the module has checked the names of a list, one after the other,
  starting from the empty caches of a freshly loaded module.
\<close>

definition cachesAfter :: "string list \<Rightarrow> attributeNameCaches" where
  "cachesAfter names = fold (\<lambda>name s. snd (isAttributeNameSafe name s)) names emptyCaches"

section \<open>Notions of the specification\<close>

text \<open>
  A bit mask sets more than one of \<open>HAS_BOOLEAN_VALUE\<close>, \<open>HAS_NUMERIC_VALUE\<close> and
  \<open>HAS_OVERLOADED_BOOLEAN_VALUE\<close>.
\<close>

definition setsSeveralValueModes :: "int \<Rightarrow> bool" where
  "setsSeveralValueModes propConfig =
    ((checkMask propConfig HAS_BOOLEAN_VALUE \<and> checkMask propConfig HAS_NUMERIC_VALUE) \<or>
     (checkMask propConfig HAS_BOOLEAN_VALUE \<and> checkMask propConfig HAS_OVERLOADED_BOOLEAN_VALUE) \<or>
     (checkMask propConfig HAS_NUMERIC_VALUE \<and> checkMask propConfig HAS_OVERLOADED_BOOLEAN_VALUE))"

text \<open>
  The first entry of a config, in the order of enumeration, whose name the registry
  holds already or whose bit mask sets several value modes.
\<close>

definition firstOffender :: "properties \<Rightarrow> (string \<times> int) list \<Rightarrow> (string \<times> int) option" where
  "firstOffender props ps =
    List.find (\<lambda>entry. props (fst entry) \<noteq> None \<or> setsSeveralValueModes (snd entry)) ps"

text \<open>The names of the built-in SVG config.\<close>

definition builtinNames :: "string set" where
  "builtinNames =
    {''autoReverse'', ''externalResourcesRequired'', ''preserveAlpha''} \<union>
    replace_CAMELIZE ` set svgAttributeNames"

text \<open>
  The caches agree with the pattern, and no name check has stored the key
  \<open>hasOwnProperty\<close>.
\<close>

definition cachesConsistent :: "attributeNameCaches \<Rightarrow> bool" where
  "cachesConsistent s =
    (validatedAttributeNameCache s ''hasOwnProperty'' = None \<and>
     (\<forall>key. validatedAttributeNameCache s key \<noteq> None \<longrightarrow> VALID_ATTRIBUTE_NAME_REGEX_test key) \<and>
     (\<forall>key. illegalAttributeNameCache s key \<noteq> None \<longrightarrow> \<not> VALID_ATTRIBUTE_NAME_REGEX_test key))"

section \<open>The tables the module builds while it loads\<close>

text \<open>The React names that the \<open>forEach\<close> derives from the SVG attribute names.\<close>

lemma camelizedNames:
  "map replace_CAMELIZE svgAttributeNames =
    [''accentHeight'', ''alignmentBaseline'', ''arabicForm'',
     ''baselineShift'', ''capHeight'', ''clipPath'', ''clipRule'',
     ''colorInterpolation'', ''colorInterpolationFilters'', ''colorProfile'',
     ''colorRendering'', ''dominantBaseline'', ''enableBackground'',
     ''fillOpacity'', ''fillRule'', ''floodColor'', ''floodOpacity'',
     ''fontFamily'', ''fontSize'', ''fontSizeAdjust'', ''fontStretch'',
     ''fontStyle'', ''fontVariant'', ''fontWeight'', ''glyphName'',
     ''glyphOrientationHorizontal'', ''glyphOrientationVertical'',
     ''horizAdvX'', ''horizOriginX'', ''imageRendering'', ''letterSpacing'',
     ''lightingColor'', ''markerEnd'', ''markerMid'', ''markerStart'',
     ''overlinePosition'', ''overlineThickness'', ''paintOrder'', ''panose-1'',
     ''pointerEvents'', ''renderingIntent'', ''shapeRendering'', ''stopColor'',
     ''stopOpacity'', ''strikethroughPosition'', ''strikethroughThickness'',
     ''strokeDasharray'', ''strokeDashoffset'', ''strokeLinecap'',
     ''strokeLinejoin'', ''strokeMiterlimit'', ''strokeOpacity'',
     ''strokeWidth'', ''textAnchor'', ''textDecoration'', ''textRendering'',
     ''underlinePosition'', ''underlineThickness'', ''unicodeBidi'',
     ''unicodeRange'', ''unitsPerEm'', ''vAlphabetic'', ''vHanging'',
     ''vIdeographic'', ''vMathematical'', ''vectorEffect'', ''vertAdvY'',
     ''vertOriginX'', ''vertOriginY'', ''wordSpacing'', ''writingMode'',
     ''xHeight'', ''xlinkActuate'', ''xlinkArcrole'', ''xlinkHref'',
     ''xlinkRole'', ''xlinkShow'', ''xlinkTitle'', ''xlinkType'', ''xmlBase'',
     ''xmlnsXlink'', ''xmlLang'', ''xmlSpace'']"
  by (simp add: svgAttributeNames_def CAMELIZE_def capitalize_def char_of_def bit_Suc_0_iff)

lemma distinct_camelizedNames: "distinct (map replace_CAMELIZE svgAttributeNames)"
  by (simp add: camelizedNames)

lemma fst_fold_forEach_body:
  "fst (fold forEach_body xs tables) =
     fold (\<lambda>x. AList.update (replace_CAMELIZE x) x) xs (fst tables)"
  by (induction xs arbitrary: tables) (simp_all add: forEach_body_def Let_def)

lemma snd_fold_forEach_body:
  "snd (fold forEach_body xs tables) =
     fold (\<lambda>x. AList.update (replace_CAMELIZE x) 0) xs (snd tables)"
  by (induction xs arbitrary: tables) (simp_all add: forEach_body_def Let_def)

lemma map_of_fold_update_other:
  "k \<notin> f ` set xs \<Longrightarrow> map_of (fold (\<lambda>x. AList.update (f x) (g x)) xs al) k = map_of al k"
  by (induction xs arbitrary: al) (simp_all add: update_conv')

lemma map_of_fold_update_const:
  "k \<in> f ` set xs \<Longrightarrow> map_of (fold (\<lambda>x. AList.update (f x) c) xs al) k = Some c"
proof (induction xs arbitrary: al)
  case Nil
  then show ?case by simp
next
  case (Cons x xs)
  show ?case
  proof (cases "k \<in> f ` set xs")
    case True
    then show ?thesis using Cons.IH by simp
  next
    case False
    with Cons.prems have "k = f x" by auto
    with False show ?thesis
      by (simp add: map_of_fold_update_other update_conv')
  qed
qed

lemma map_of_fold_update_self:
  "distinct (map f xs) \<Longrightarrow> x \<in> set xs \<Longrightarrow>
   map_of (fold (\<lambda>x. AList.update (f x) (g x)) xs al) (f x) = Some (g x)"
proof (induction xs arbitrary: al)
  case Nil
  then show ?case by simp
next
  case (Cons y ys)
  show ?case
  proof (cases "x \<in> set ys")
    case True
    with Cons show ?thesis by simp
  next
    case False
    with Cons.prems have "x = y" and "f y \<notin> f ` set ys" by auto
    then show ?thesis
      by (simp add: map_of_fold_update_other update_conv')
  qed
qed

lemma distinct_fold_update:
  "distinct (map fst al) \<Longrightarrow> distinct (map fst (fold (\<lambda>x. AList.update (f x) (g x)) xs al))"
  by (induction xs arbitrary: al) (simp_all add: distinct_update)

lemma attributeNames_other:
  "k \<notin> set (map replace_CAMELIZE svgAttributeNames) \<Longrightarrow>
   attributeNames k = map_of attributeNames_literal k"
  by (simp add: attributeNames_def moduleTables_def fst_fold_forEach_body
      map_of_fold_update_other)

lemma attributeNames_svg:
  "svgAttributeName \<in> set svgAttributeNames \<Longrightarrow>
   attributeNames (replace_CAMELIZE svgAttributeName) = Some svgAttributeName"
  unfolding attributeNames_def moduleTables_def fst_fold_forEach_body
  by (rule map_of_fold_update_self [OF distinct_camelizedNames])

lemma attributeNames_irregular:
  "attributeNames ''className'' = Some ''class''"
  "attributeNames ''htmlFor'' = Some ''for''"
  "attributeNames ''httpEquiv'' = Some ''http-equiv''"
  "attributeNames ''acceptCharset'' = Some ''accept-charset''"
  by (simp_all add: attributeNames_other camelizedNames attributeNames_literal_def)

section \<open>Name resolution\<close>

text \<open>
  C5. \<open>getAttributeName\<close> reads nothing but its argument and the table \<open>attributeNames\<close>,
  which the module fills while it loads and never writes again, so it is a total
  function of the name. An irregular mapping wins over lower-casing: \<open>className\<close> gives
  \<open>class\<close>, \<open>htmlFor\<close> gives \<open>for\<close>, \<open>httpEquiv\<close> gives \<open>http-equiv\<close>, \<open>acceptCharset\<close> gives
  \<open>accept-charset\<close>, and every name of the table gives its entry; a name without an
  entry gives the name in lower case.
\<close>

theorem getAttributeName_irregular_first:
  "getAttributeName ''className'' = ''class'' \<and>
   getAttributeName ''htmlFor'' = ''for'' \<and>
   getAttributeName ''httpEquiv'' = ''http-equiv'' \<and>
   getAttributeName ''acceptCharset'' = ''accept-charset'' \<and>
   (\<forall>attributeName. attributeNames propName = Some attributeName \<longrightarrow>
      getAttributeName propName = attributeName) \<and>
   (attributeNames propName = None \<longrightarrow> getAttributeName propName = toLowerCase propName)"
  by (simp add: getAttributeName_def attributeNames_irregular)

theorem getAttributeName_irregular_first_witness:
  "attributeNames ''strokeWidth'' = Some ''stroke-width'' \<and>
   getAttributeName ''strokeWidth'' = ''stroke-width'' \<and>
   attributeNames ''unknownProp'' = None \<and>
   getAttributeName ''unknownProp'' = ''unknownprop''"
proof -
  have svg: "attributeNames ''strokeWidth'' = Some ''stroke-width''"
    using attributeNames_svg [of "''stroke-width''"]
    by (simp add: svgAttributeNames_def CAMELIZE_def capitalize_def char_of_def bit_Suc_0_iff)
  have other: "attributeNames ''unknownProp'' = None"
    by (simp add: attributeNames_other camelizedNames attributeNames_literal_def)
  have lower: "toLowerCase ''unknownProp'' = ''unknownprop''"
    by (simp add: toLowerCase_def toLowerCase_unit_def char_of_def bit_Suc_0_iff)
  show ?thesis
    using svg other lower
      getAttributeName_irregular_first [of "''strokeWidth''"]
      getAttributeName_irregular_first [of "''unknownProp''"]
    by simp
qed

text \<open>
  C6. \<open>getAttributeNamespace\<close> returns the XML namespace exactly for \<open>xmlBase\<close>, \<open>xmlLang\<close>
  and \<open>xmlSpace\<close>, the XLink namespace exactly for \<open>xlinkActuate\<close>, \<open>xlinkArcrole\<close>,
  \<open>xlinkHref\<close>, \<open>xlinkRole\<close>, \<open>xlinkShow\<close>, \<open>xlinkTitle\<close> and \<open>xlinkType\<close>, and \<open>null\<close> for
  every other name.
\<close>

theorem getAttributeNamespace_exact:
  "(getAttributeNamespace propName = Some ''http://www.w3.org/XML/1998/namespace'' \<longleftrightarrow>
      propName \<in> {''xmlBase'', ''xmlLang'', ''xmlSpace''}) \<and>
   (getAttributeNamespace propName = Some ''http://www.w3.org/1999/xlink'' \<longleftrightarrow>
      propName \<in> {''xlinkActuate'', ''xlinkArcrole'', ''xlinkHref'', ''xlinkRole'',
                   ''xlinkShow'', ''xlinkTitle'', ''xlinkType''}) \<and>
   (getAttributeNamespace propName = None \<longleftrightarrow>
      propName \<notin> {''xmlBase'', ''xmlLang'', ''xmlSpace'', ''xlinkActuate'', ''xlinkArcrole'',
                   ''xlinkHref'', ''xlinkRole'', ''xlinkShow'', ''xlinkTitle'', ''xlinkType''})"
  by (simp add: getAttributeNamespace_def)

section \<open>Which attributes are written\<close>

text \<open>
  C8. \<open>shouldSetAttribute\<close> returns false for every name whose first two characters are
  \<open>o\<close> or \<open>O\<close> and then \<open>n\<close> or \<open>N\<close>, whatever the value; false for every reserved prop,
  whatever the value; and false for every function and every symbol, whatever the
  name.
\<close>

theorem shouldSetAttribute_refuses:
  "(take 2 name \<in> {''on'', ''On'', ''oN'', ''ON''} \<longrightarrow>
      shouldSetAttribute props name (value :: 'x jsvalue) = Inr False) \<and>
   (name \<in> set RESERVED_PROPS \<longrightarrow> shouldSetAttribute props name value = Inr False) \<and>
   shouldSetAttribute props name (JFunction f :: 'x jsvalue) = Inr False \<and>
   shouldSetAttribute props name (JSymbol y :: 'x jsvalue) = Inr False"
proof -
  have on: "shouldSetAttribute props name value = Inr False"
    if "take 2 name \<in> {''on'', ''On'', ''oN'', ''ON''}"
  proof (cases name)
    case Nil
    with that show ?thesis by simp
  next
    case (Cons c0 cs)
    note outer = this
    show ?thesis
    proof (cases cs)
      case Nil
      with outer that show ?thesis by simp
    next
      case (Cons c1 rest)
      with outer that show ?thesis
        by (auto simp: shouldSetAttribute_def)
    qed
  qed
  have reserved: "shouldSetAttribute props name value = Inr False" if "name \<in> set RESERVED_PROPS"
    using that by (simp add: shouldSetAttribute_def isReservedProp_def)
  have "shouldSetAttribute props name (JFunction f) = Inr False"
    and "shouldSetAttribute props name (JSymbol y) = Inr False"
    by (simp_all add: shouldSetAttribute_def)
  with on reserved show ?thesis by blast
qed

theorem shouldSetAttribute_refuses_witness:
  "shouldSetAttribute initialProperties ''onClick'' (JFunction ()) = Inr False \<and>
   shouldSetAttribute initialProperties ''ONLOAD'' (JString ''x'' :: unit jsvalue) = Inr False \<and>
   shouldSetAttribute initialProperties ''style'' (JString ''color: red'' :: unit jsvalue) = Inr False \<and>
   shouldSetAttribute initialProperties ''title'' (JSymbol ()) = Inr False"
  using shouldSetAttribute_refuses [of "''onClick''" initialProperties "JFunction ()" "()" "()"]
    shouldSetAttribute_refuses [of "''ONLOAD''" initialProperties "JString ''x'' :: unit jsvalue" "()" "()"]
    shouldSetAttribute_refuses [of "''style''" initialProperties "JString ''color: red'' :: unit jsvalue" "()" "()"]
    shouldSetAttribute_refuses [of "''title''" initialProperties "JNull :: unit jsvalue" "()" "()"]
  by (simp add: RESERVED_PROPS_def)

section \<open>The registry under injection\<close>

lemma valueModeCount_le_1:
  "valueModeCount (propertyInfoOf propConfig) \<le> Suc 0 \<longleftrightarrow> \<not> setsSeveralValueModes propConfig"
  by (auto simp: valueModeCount_def propertyInfoOf_def setsSeveralValueModes_def)

lemma injectProperties_Cons:
  "injectProperties ((propName, propConfig) # rest) props =
    (if props ''hasOwnProperty'' \<noteq> None then (Some TypeError, props)
     else if props propName \<noteq> None then (Some (AlreadyInjected propName), props)
     else if setsSeveralValueModes propConfig then (Some (ValueCombination propName), props)
     else injectProperties rest (assignPropertyInfo props propName (propertyInfoOf propConfig)))"
  by (simp add: Let_def valueModeCount_le_1 hasOwnProperty_def)

lemma assignPropertyInfo_other:
  "key \<noteq> propName \<Longrightarrow> assignPropertyInfo props propName info key = props key"
  by (simp add: assignPropertyInfo_def)

lemma assignPropertyInfo_same:
  "assignPropertyInfo props propName info propName =
    (if propName = ''__proto__'' then props propName else Some info)"
  by (simp add: assignPropertyInfo_def)

text \<open>An entry of the registry is never overwritten or removed.\<close>

lemma injectProperties_keeps:
  "props k = Some info \<Longrightarrow> snd (injectProperties ps props) k = Some info"
proof (induction ps arbitrary: props)
  case Nil
  then show ?case by simp
next
  case (Cons entry ps)
  obtain n m where entry: "entry = (n, m)" by (cases entry)
  show ?case
  proof (cases "props ''hasOwnProperty'' \<noteq> None \<or> props n \<noteq> None \<or> setsSeveralValueModes m")
    case True
    with Cons.prems entry show ?thesis
      by (auto simp: injectProperties_Cons simp del: injectProperties.simps(2))
  next
    case False
    with Cons.prems have "k \<noteq> n" by auto
    with Cons.prems have "assignPropertyInfo props n (propertyInfoOf m) k = Some info"
      by (simp add: assignPropertyInfo_other)
    then have "snd (injectProperties ps (assignPropertyInfo props n (propertyInfoOf m))) k = Some info"
      by (rule Cons.IH)
    with False entry show ?thesis
      by (simp add: injectProperties_Cons del: injectProperties.simps(2))
  qed
qed

text \<open>A call adds no key but the names of its config.\<close>

lemma injectProperties_dom:
  "snd (injectProperties ps props) k \<noteq> None \<Longrightarrow> props k \<noteq> None \<or> k \<in> fst ` set ps"
proof (induction ps arbitrary: props)
  case Nil
  then show ?case by simp
next
  case (Cons entry ps)
  obtain n m where entry: "entry = (n, m)" by (cases entry)
  show ?case
  proof (cases "props ''hasOwnProperty'' \<noteq> None \<or> props n \<noteq> None \<or> setsSeveralValueModes m")
    case True
    with Cons.prems entry show ?thesis
      by (auto simp: injectProperties_Cons simp del: injectProperties.simps(2) split: if_splits)
  next
    case False
    with Cons.prems entry
    have "snd (injectProperties ps (assignPropertyInfo props n (propertyInfoOf m))) k \<noteq> None"
      by (simp add: injectProperties_Cons del: injectProperties.simps(2))
    then have "assignPropertyInfo props n (propertyInfoOf m) k \<noteq> None \<or> k \<in> fst ` set ps"
      by (rule Cons.IH)
    then show ?thesis
      using entry by (cases "k = n") (auto simp: assignPropertyInfo_other)
  qed
qed

text \<open>The second invariant holds of every descriptor a call stores.\<close>

lemma injectProperties_invariant:
  "(\<And>k i. props k = Some i \<Longrightarrow> valueModeCount i \<le> 1) \<Longrightarrow>
   snd (injectProperties ps props) k = Some info \<Longrightarrow> valueModeCount info \<le> 1"
proof (induction ps arbitrary: props)
  case Nil
  then show ?case by simp
next
  case (Cons entry ps)
  obtain n m where entry: "entry = (n, m)" by (cases entry)
  show ?case
  proof (cases "props ''hasOwnProperty'' \<noteq> None \<or> props n \<noteq> None \<or> setsSeveralValueModes m")
    case True
    with Cons.prems(2) entry have "props k = Some info"
      by (auto simp: injectProperties_Cons simp del: injectProperties.simps(2) split: if_splits)
    then show ?thesis by (rule Cons.prems(1))
  next
    case False
    then have one: "valueModeCount (propertyInfoOf m) \<le> 1"
      by (simp add: valueModeCount_le_1)
    have step: "valueModeCount i \<le> 1"
      if "assignPropertyInfo props n (propertyInfoOf m) j = Some i" for j i
      using that one Cons.prems(1) by (auto simp: assignPropertyInfo_def split: if_splits)
    from Cons.prems(2) False entry
    have "snd (injectProperties ps (assignPropertyInfo props n (propertyInfoOf m))) k = Some info"
      by (simp add: injectProperties_Cons del: injectProperties.simps(2))
    with step show ?thesis by (rule Cons.IH)
  qed
qed

text \<open>
  On a registry that holds the key \<open>hasOwnProperty\<close>, every call with a config that
  has an entry throws a \<open>TypeError\<close>.
\<close>

lemma injectProperties_TypeError:
  "props ''hasOwnProperty'' \<noteq> None \<Longrightarrow> ps \<noteq> [] \<Longrightarrow>
   fst (injectProperties ps props) = Some TypeError"
  by (cases ps) (auto simp: injectProperties_Cons simp del: injectProperties.simps(2))

text \<open>
  The loop without the key \<open>hasOwnProperty\<close>, neither in the registry nor in the
  config: it ends at the first offending entry.
\<close>

lemma firstOffender_assign:
  "n \<notin> fst ` set ps \<Longrightarrow>
   firstOffender (assignPropertyInfo props n i) ps = firstOffender props ps"
proof -
  assume notin: "n \<notin> fst ` set ps"
  have "(assignPropertyInfo props n i (fst entry) \<noteq> None \<or> setsSeveralValueModes (snd entry)) =
      (props (fst entry) \<noteq> None \<or> setsSeveralValueModes (snd entry))"
    if "entry \<in> set ps" for entry
  proof -
    from that notin have "fst entry \<noteq> n" by auto
    then show ?thesis by (simp add: assignPropertyInfo_other)
  qed
  then show ?thesis
    unfolding firstOffender_def by (intro find_cong refl)
qed

lemma firstOffender_Cons:
  "firstOffender props ((n, m) # rest) =
    (if props n \<noteq> None \<or> setsSeveralValueModes m then Some (n, m)
     else firstOffender props rest)"
  by (simp add: firstOffender_def)

lemma injectProperties_firstOffender:
  "distinct (map fst ps) \<Longrightarrow> props ''hasOwnProperty'' = None \<Longrightarrow>
   ''hasOwnProperty'' \<notin> fst ` set ps \<Longrightarrow>
   fst (injectProperties ps props) =
     (case firstOffender props ps of
        None \<Rightarrow> None
      | Some entry \<Rightarrow>
          Some (if props (fst entry) \<noteq> None then AlreadyInjected (fst entry)
                else ValueCombination (fst entry)))"
proof (induction ps arbitrary: props)
  case Nil
  then show ?case by (simp add: firstOffender_def)
next
  case (Cons entry ps)
  obtain n m where entry: "entry = (n, m)" by (cases entry)
  show ?case
  proof (cases "props n \<noteq> None \<or> setsSeveralValueModes m")
    case True
    with entry Cons.prems(2) show ?thesis
      by (auto simp: injectProperties_Cons firstOffender_Cons simp del: injectProperties.simps(2))
  next
    case False
    from Cons.prems entry have notin: "n \<notin> fst ` set ps" and dist: "distinct (map fst ps)"
      and plain: "n \<noteq> ''hasOwnProperty''" "''hasOwnProperty'' \<notin> fst ` set ps"
      by auto
    let ?props = "assignPropertyInfo props n (propertyInfoOf m)"
    have clean: "?props ''hasOwnProperty'' = None"
      using plain(1) Cons.prems(2) by (simp add: assignPropertyInfo_other)
    have same: "(if ?props (fst e) \<noteq> None then AlreadyInjected (fst e) else ValueCombination (fst e)) =
        (if props (fst e) \<noteq> None then AlreadyInjected (fst e) else ValueCombination (fst e))"
      if "firstOffender props ps = Some e" for e
    proof -
      from that have "e \<in> set ps" by (auto simp: firstOffender_def find_Some_iff)
      with notin have "fst e \<noteq> n" by auto
      then show ?thesis by (simp add: assignPropertyInfo_other)
    qed
    have "fst (injectProperties (entry # ps) props) = fst (injectProperties ps ?props)"
      using False entry Cons.prems(2)
      by (simp add: injectProperties_Cons del: injectProperties.simps(2))
    also have "\<dots> =
        (case firstOffender ?props ps of
           None \<Rightarrow> None
         | Some e \<Rightarrow>
             Some (if ?props (fst e) \<noteq> None then AlreadyInjected (fst e)
                   else ValueCombination (fst e)))"
      using dist clean plain(2) by (rule Cons.IH)
    also have "\<dots> =
        (case firstOffender props ps of
           None \<Rightarrow> None
         | Some e \<Rightarrow>
             Some (if props (fst e) \<noteq> None then AlreadyInjected (fst e)
                   else ValueCombination (fst e)))"
      using same by (simp add: firstOffender_assign [OF notin] split: option.splits)
    finally show ?thesis
      using False entry by (simp add: firstOffender_Cons)
  qed
qed

lemma injectProperties_stores:
  "distinct (map fst ps) \<Longrightarrow> props ''hasOwnProperty'' = None \<Longrightarrow>
   ''hasOwnProperty'' \<notin> fst ` set ps \<Longrightarrow> ''__proto__'' \<notin> fst ` set ps \<Longrightarrow>
   firstOffender props ps = None \<Longrightarrow>
   snd (injectProperties ps props) k =
     (case map_of ps k of Some m \<Rightarrow> Some (propertyInfoOf m) | None \<Rightarrow> props k)"
proof (induction ps arbitrary: props)
  case Nil
  then show ?case by simp
next
  case (Cons entry ps)
  obtain n m where entry: "entry = (n, m)" by (cases entry)
  from Cons.prems(5) entry have ok: "\<not> (props n \<noteq> None \<or> setsSeveralValueModes m)"
    and rest: "firstOffender props ps = None"
    by (auto simp: firstOffender_Cons split: if_splits)
  from Cons.prems entry have notin: "n \<notin> fst ` set ps" and dist: "distinct (map fst ps)"
    and plain: "n \<noteq> ''hasOwnProperty''" "''hasOwnProperty'' \<notin> fst ` set ps"
    and proto: "n \<noteq> ''__proto__''" "''__proto__'' \<notin> fst ` set ps"
    by auto
  let ?props = "assignPropertyInfo props n (propertyInfoOf m)"
  have clean: "?props ''hasOwnProperty'' = None"
    using plain(1) Cons.prems(2) by (simp add: assignPropertyInfo_other)
  have none: "map_of ps n = None"
    using notin by (simp add: map_of_eq_None_iff)
  have "firstOffender ?props ps = None"
    using rest by (simp add: firstOffender_assign [OF notin])
  with dist clean plain(2) proto(2)
  have "snd (injectProperties ps ?props) k =
      (case map_of ps k of Some m' \<Rightarrow> Some (propertyInfoOf m') | None \<Rightarrow> ?props k)"
    by (rule Cons.IH)
  then show ?case
    using ok entry none proto(1) Cons.prems(2)
    by (auto simp: injectProperties_Cons assignPropertyInfo_def
        simp del: injectProperties.simps(2) split: option.splits)
qed

text \<open>The built-in SVG config and the registry the module leaves behind when it has loaded.\<close>

lemma map_of_svgConfig:
  "map_of (snd moduleTables) k =
    (if k \<in> replace_CAMELIZE ` set svgAttributeNames then Some 0
     else map_of svgConfig_literal k)"
  by (simp add: moduleTables_def snd_fold_forEach_body map_of_fold_update_const
      map_of_fold_update_other)

lemma distinct_svgConfig: "distinct (map fst (snd moduleTables))"
  unfolding moduleTables_def snd_fold_forEach_body
  by (rule distinct_fold_update) (simp add: svgConfig_literal_def)

lemma svgConfig_keys:
  "k \<in> fst ` set (snd moduleTables) \<longleftrightarrow>
   k \<in> replace_CAMELIZE ` set svgAttributeNames \<or>
   k \<in> {''autoReverse'', ''externalResourcesRequired'', ''preserveAlpha''}"
proof -
  have "k \<in> fst ` set (snd moduleTables) \<longleftrightarrow> map_of (snd moduleTables) k \<noteq> None"
    by (simp add: map_of_eq_None_iff)
  then show ?thesis
    by (auto simp: map_of_svgConfig svgConfig_literal_def split: if_splits)
qed

lemma svgConfig_plain:
  "''hasOwnProperty'' \<notin> fst ` set (snd moduleTables)"
  "''__proto__'' \<notin> fst ` set (snd moduleTables)"
  using svgConfig_keys [of "''hasOwnProperty''"] svgConfig_keys [of "''__proto__''"]
  by (simp_all add: camelizedNames flip: set_map)

lemma setsSeveralValueModes_builtin:
  "\<not> setsSeveralValueModes 0" "\<not> setsSeveralValueModes HAS_STRING_BOOLEAN_VALUE"
  by (simp_all add: setsSeveralValueModes_def checkMask_def HAS_BOOLEAN_VALUE_def
      HAS_NUMERIC_VALUE_def HAS_OVERLOADED_BOOLEAN_VALUE_def HAS_STRING_BOOLEAN_VALUE_def)

lemma svgConfig_entries:
  assumes "entry \<in> set (snd moduleTables)"
  shows "snd entry = 0 \<or> snd entry = HAS_STRING_BOOLEAN_VALUE"
proof -
  from assms distinct_svgConfig have "map_of (snd moduleTables) (fst entry) = Some (snd entry)"
    by simp
  then show ?thesis
    by (auto simp: map_of_svgConfig svgConfig_literal_def split: if_splits)
qed

lemma firstOffender_svgConfig: "firstOffender Map.empty (snd moduleTables) = None"
proof -
  have "\<not> setsSeveralValueModes (snd entry)" if "entry \<in> set (snd moduleTables)" for entry
    using svgConfig_entries [OF that] setsSeveralValueModes_builtin by auto
  then show ?thesis
    by (auto simp: firstOffender_def find_None_iff)
qed


lemma initialProperties_eq:
  "initialProperties k =
    (if k \<in> replace_CAMELIZE ` set svgAttributeNames then Some (propertyInfoOf 0)
     else map_option propertyInfoOf (map_of svgConfig_literal k))"
  by (simp add: initialProperties_def moduleInjection_def injectDOMPropertyConfig_def
      svgConfig_def propertiesOf_def
      injectProperties_stores [OF distinct_svgConfig _ svgConfig_plain firstOffender_svgConfig]
      map_of_svgConfig split: option.splits)



lemma initialProperties_dom: "initialProperties k \<noteq> None \<longleftrightarrow> k \<in> builtinNames"
  by (auto simp: initialProperties_eq builtinNames_def svgConfig_literal_def split: if_splits)

lemma initialProperties_plain: "initialProperties ''hasOwnProperty'' = None"
  by (simp add: initialProperties_eq camelizedNames svgConfig_literal_def flip: set_map)

lemma initialProperties_checked: "initialProperties ''checked'' = None"
  by (simp add: initialProperties_eq camelizedNames svgConfig_literal_def flip: set_map)

lemma initialProperties_title: "initialProperties ''title'' = None"
  by (simp add: initialProperties_eq camelizedNames svgConfig_literal_def flip: set_map)

lemma initialProperties_autoReverse: "initialProperties ''autoReverse'' \<noteq> None"
  using initialProperties_dom [of "''autoReverse''"] by (simp add: builtinNames_def)

lemma initialProperties_strokeWidth: "initialProperties ''strokeWidth'' \<noteq> None"
  using initialProperties_eq [of "''strokeWidth''"]
  by (simp add: camelizedNames flip: set_map)

lemma injectAll_keeps:
  "props k = Some info \<Longrightarrow> injectAll configs props k = Some info"
  by (induction configs arbitrary: props)
    (simp_all add: injectAll_def injectDOMPropertyConfig_def injectProperties_keeps)

lemma injectAll_invariant:
  "(\<And>k i. props k = Some i \<Longrightarrow> valueModeCount i \<le> 1) \<Longrightarrow>
   injectAll configs props k = Some info \<Longrightarrow> valueModeCount info \<le> 1"
proof (induction configs arbitrary: props)
  case Nil
  then show ?case by (simp add: injectAll_def)
next
  case (Cons config configs)
  have step: "valueModeCount i \<le> 1"
    if "snd (injectDOMPropertyConfig config props) j = Some i" for j i
    using Cons.prems(1) that unfolding injectDOMPropertyConfig_def
    by (rule injectProperties_invariant)
  from Cons.prems(2)
  have "injectAll configs (snd (injectDOMPropertyConfig config props)) k = Some info"
    by (simp add: injectAll_def)
  with step show ?case by (rule Cons.IH)
qed

lemma initialProperties_invariant:
  "initialProperties k = Some info \<Longrightarrow> valueModeCount info \<le> 1"
  unfolding initialProperties_def moduleInjection_def injectDOMPropertyConfig_def
  by (rule injectProperties_invariant [of Map.empty]) simp_all

section \<open>Injection\<close>

text \<open>
  Without the key \<open>hasOwnProperty\<close>, neither in the registry nor in the config, an
  entry whose name is registered already or whose bit mask sets several value modes
  makes the call fail with a configuration error.
\<close>

lemma injectProperties_configuration_error:
  "props ''hasOwnProperty'' = None \<Longrightarrow> ''hasOwnProperty'' \<notin> fst ` set ps \<Longrightarrow>
   (n, m) \<in> set ps \<Longrightarrow> props n \<noteq> None \<or> setsSeveralValueModes m \<Longrightarrow>
   \<exists>e. fst (injectProperties ps props) = Some e \<and> isConfigurationError e"
proof (induction ps arbitrary: props)
  case Nil
  then show ?case by simp
next
  case (Cons entry ps)
  obtain n' m' where entry: "entry = (n', m')" by (cases entry)
  show ?case
  proof (cases "props n' \<noteq> None \<or> setsSeveralValueModes m'")
    case True
    with Cons.prems(1) entry show ?thesis
      by (auto simp: injectProperties_Cons simp del: injectProperties.simps(2))
  next
    case False
    let ?props = "assignPropertyInfo props n' (propertyInfoOf m')"
    from Cons.prems(2) entry have plain: "n' \<noteq> ''hasOwnProperty''"
      "''hasOwnProperty'' \<notin> fst ` set ps" by auto
    from Cons.prems(3,4) False entry have inside: "(n, m) \<in> set ps" by auto
    have clean: "?props ''hasOwnProperty'' = None"
      using plain(1) Cons.prems(1) by (simp add: assignPropertyInfo_other)
    have offends: "?props n \<noteq> None \<or> setsSeveralValueModes m"
    proof (cases "props n \<noteq> None")
      case True
      with False have "n \<noteq> n'" by auto
      with True show ?thesis by (simp add: assignPropertyInfo_other)
    next
      case False
      with Cons.prems(4) show ?thesis by simp
    qed
    from clean plain(2) inside offends
    have "\<exists>e. fst (injectProperties ps ?props) = Some e \<and> isConfigurationError e"
      by (rule Cons.IH)
    with False entry Cons.prems(1) show ?thesis
      by (simp add: injectProperties_Cons del: injectProperties.simps(2))
  qed
qed

text \<open>
  Every descriptor in the registry, after the module has loaded and after any later
  injections, has at most one of \<open>hasBooleanValue\<close>, \<open>hasNumericValue\<close> and
  \<open>hasOverloadedBooleanValue\<close>.
\<close>

lemma registry_value_modes:
  assumes "injectAll configs initialProperties k = Some info"
  shows "\<not> (hasBooleanValue info \<and> hasNumericValue info) \<and>
      \<not> (hasBooleanValue info \<and> hasOverloadedBooleanValue info) \<and>
      \<not> (hasNumericValue info \<and> hasOverloadedBooleanValue info)"
proof -
  have "valueModeCount info \<le> 1"
    using initialProperties_invariant assms by (rule injectAll_invariant)
  then show ?thesis by (auto simp: valueModeCount_def)
qed

lemma several_BOOLEAN_NUMERIC: "setsSeveralValueModes (HAS_BOOLEAN_VALUE OR HAS_NUMERIC_VALUE)"
  by (simp add: setsSeveralValueModes_def checkMask_def HAS_BOOLEAN_VALUE_def
      HAS_NUMERIC_VALUE_def HAS_OVERLOADED_BOOLEAN_VALUE_def)



text \<open>
  As long as no config has declared the name \<open>hasOwnProperty\<close>, a config that defines
  a built-in name makes \<open>injectDOMPropertyConfig\<close> fail with a configuration error.
\<close>

lemma builtin_name_configuration_error:
  assumes "name \<in> builtinNames" and "(name, propConfig) \<in> set (propertiesOf config)"
    and "injectAll configs initialProperties ''hasOwnProperty'' = None"
    and "''hasOwnProperty'' \<notin> fst ` set (propertiesOf config)"
  shows "\<exists>e. fst (injectDOMPropertyConfig config (injectAll configs initialProperties)) = Some e \<and>
    isConfigurationError e"
proof -
  from assms(1) obtain info where "initialProperties name = Some info"
    using initialProperties_dom [of name] by auto
  then have "injectAll configs initialProperties name = Some info"
    by (rule injectAll_keeps)
  then have "injectAll configs initialProperties name \<noteq> None \<or> setsSeveralValueModes propConfig"
    by simp
  with assms(3,4,2) show ?thesis
    unfolding injectDOMPropertyConfig_def by (rule injectProperties_configuration_error)
qed


text \<open>
  C3, as amended. Leave the key \<open>hasOwnProperty\<close> out: the registry does not hold it
  and no config declares it. Take two configs whose names are disjoint from each
  other and from the names the registry holds, and none of whose entries sets more
  than one of the three value modes: injecting the first and then the second returns
  both times. And a config that declares a name the registry holds already makes
  \<open>injectDOMPropertyConfig\<close> fail with a configuration error, which names the first
  entry, in the order of enumeration, that is registered already or sets several value
  modes.

  As stated, the claim fails: names disjoint from each other do not keep the first
  config from setting two value modes or from declaring a built-in SVG name, and the
  error of a config names its first offending entry, which need not be the
  re-declared one.
\<close>

theorem injection_of_disjoint_configs:
  "(props ''hasOwnProperty'' = None \<and>
    ''hasOwnProperty'' \<notin> fst ` set (propertiesOf first) \<union> fst ` set (propertiesOf second) \<and>
    distinct (map fst (propertiesOf first)) \<and> distinct (map fst (propertiesOf second)) \<and>
    fst ` set (propertiesOf first) \<inter> fst ` set (propertiesOf second) = {} \<and>
    (\<forall>entry \<in> set (propertiesOf first) \<union> set (propertiesOf second).
       props (fst entry) = None \<and> \<not> setsSeveralValueModes (snd entry)) \<longrightarrow>
    fst (injectDOMPropertyConfig first props) = None \<and>
    fst (injectDOMPropertyConfig second (snd (injectDOMPropertyConfig first props))) = None) \<and>
   (props ''hasOwnProperty'' = None \<and> ''hasOwnProperty'' \<notin> fst ` set (propertiesOf config) \<and>
    distinct (map fst (propertiesOf config)) \<and> (n, m) \<in> set (propertiesOf config) \<and>
    props n \<noteq> None \<longrightarrow>
    (\<exists>entry e. firstOffender props (propertiesOf config) = Some entry \<and>
       e = (if props (fst entry) \<noteq> None then AlreadyInjected (fst entry)
            else ValueCombination (fst entry)) \<and>
       fst (injectDOMPropertyConfig config props) = Some e \<and> isConfigurationError e))"
proof -
  have both: "fst (injectDOMPropertyConfig first props) = None \<and>
      fst (injectDOMPropertyConfig second (snd (injectDOMPropertyConfig first props))) = None"
    if clean: "props ''hasOwnProperty'' = None"
      and plain: "''hasOwnProperty'' \<notin> fst ` set (propertiesOf first) \<union> fst ` set (propertiesOf second)"
      and d1: "distinct (map fst (propertiesOf first))"
      and d2: "distinct (map fst (propertiesOf second))"
      and disj: "fst ` set (propertiesOf first) \<inter> fst ` set (propertiesOf second) = {}"
      and ok: "\<forall>entry \<in> set (propertiesOf first) \<union> set (propertiesOf second).
         props (fst entry) = None \<and> \<not> setsSeveralValueModes (snd entry)"
  proof -
    let ?after = "snd (injectProperties (propertiesOf first) props)"
    from plain have p1: "''hasOwnProperty'' \<notin> fst ` set (propertiesOf first)"
      and p2: "''hasOwnProperty'' \<notin> fst ` set (propertiesOf second)" by auto
    have ok1: "props (fst entry) = None \<and> \<not> setsSeveralValueModes (snd entry)"
      if "entry \<in> set (propertiesOf first)" for entry
      using ok that by blast
    have ok2: "props (fst entry) = None \<and> \<not> setsSeveralValueModes (snd entry)"
      if "entry \<in> set (propertiesOf second)" for entry
      using ok that by blast
    have o1: "firstOffender props (propertiesOf first) = None"
      using ok1 by (auto simp: firstOffender_def find_None_iff)
    have r1: "fst (injectProperties (propertiesOf first) props) = None"
      by (simp add: injectProperties_firstOffender [of "propertiesOf first" props, OF d1 clean p1] o1)
    have added: "?after k = None" if "props k = None" and "k \<notin> fst ` set (propertiesOf first)" for k
      using injectProperties_dom [of "propertiesOf first" props k] that by blast
    have clean': "?after ''hasOwnProperty'' = None"
      using clean p1 by (rule added)
    have fresh: "?after (fst entry) = None" if "entry \<in> set (propertiesOf second)" for entry
    proof -
      from that disj have "fst entry \<notin> fst ` set (propertiesOf first)" by auto
      moreover from that ok2 have "props (fst entry) = None" by auto
      ultimately show ?thesis by (simp add: added)
    qed
    have o2: "firstOffender ?after (propertiesOf second) = None"
      using ok2 fresh by (auto simp: firstOffender_def find_None_iff)
    have r2: "fst (injectProperties (propertiesOf second) ?after) = None"
      by (simp add: injectProperties_firstOffender [of "propertiesOf second" ?after, OF d2 clean' p2] o2)
    from r1 r2 show ?thesis by (simp add: injectDOMPropertyConfig_def)
  qed
  have again: "\<exists>entry e. firstOffender props (propertiesOf config) = Some entry \<and>
       e = (if props (fst entry) \<noteq> None then AlreadyInjected (fst entry)
            else ValueCombination (fst entry)) \<and>
       fst (injectDOMPropertyConfig config props) = Some e \<and> isConfigurationError e"
    if clean: "props ''hasOwnProperty'' = None"
      and plain: "''hasOwnProperty'' \<notin> fst ` set (propertiesOf config)"
      and d: "distinct (map fst (propertiesOf config))"
      and entry: "(n, m) \<in> set (propertiesOf config)" and known: "props n \<noteq> None"
  proof -
    from entry known have "firstOffender props (propertiesOf config) \<noteq> None"
      by (auto simp: firstOffender_def find_None_iff)
    then obtain entry where
      first: "firstOffender props (propertiesOf config) = Some entry" by auto
    then show ?thesis
      by (auto simp: injectDOMPropertyConfig_def injectProperties_firstOffender [of "propertiesOf config" props, OF d clean plain])
  qed
  from both again show ?thesis by blast
qed

theorem injection_of_disjoint_configs_witness:
  "fst (injectDOMPropertyConfig \<lparr> Properties = Some [(''checked'', HAS_BOOLEAN_VALUE)] \<rparr>
          initialProperties) = None \<and>
   fst (injectDOMPropertyConfig \<lparr> Properties = Some [(''title'', 0)] \<rparr>
          (snd (injectDOMPropertyConfig \<lparr> Properties = Some [(''checked'', HAS_BOOLEAN_VALUE)] \<rparr>
                  initialProperties))) = None \<and>
   fst (injectDOMPropertyConfig \<lparr> Properties = Some [(''title'', 0), (''autoReverse'', 0)] \<rparr>
          initialProperties) = Some (AlreadyInjected ''autoReverse'')"
proof -
  have modes: "\<not> setsSeveralValueModes HAS_BOOLEAN_VALUE" "\<not> setsSeveralValueModes 0"
    by (simp_all add: setsSeveralValueModes_def checkMask_def HAS_BOOLEAN_VALUE_def
        HAS_NUMERIC_VALUE_def HAS_OVERLOADED_BOOLEAN_VALUE_def)
  have offender: "firstOffender initialProperties [(''title'', 0), (''autoReverse'', 0)] =
      Some (''autoReverse'', 0)"
    using modes initialProperties_autoReverse
    by (simp add: firstOffender_Cons initialProperties_title)
  show ?thesis
    using modes initialProperties_autoReverse offender initialProperties_plain
      injection_of_disjoint_configs
        [of initialProperties "\<lparr> Properties = Some [(''checked'', HAS_BOOLEAN_VALUE)] \<rparr>"
          "\<lparr> Properties = Some [(''title'', 0)] \<rparr>"
          "\<lparr> Properties = Some [(''title'', 0), (''autoReverse'', 0)] \<rparr>"
          "''autoReverse''" 0]
    by (simp add: propertiesOf_def initialProperties_checked initialProperties_title)
qed

theorem injection_of_disjoint_configs_counterexample:
  "fst ` set (propertiesOf \<lparr> Properties = Some [(''checked'', HAS_BOOLEAN_VALUE OR HAS_NUMERIC_VALUE)] \<rparr>) \<inter>
   fst ` set (propertiesOf \<lparr> Properties = Some [(''title'', 0)] \<rparr>) = {} \<and>
   fst (injectDOMPropertyConfig
          \<lparr> Properties = Some [(''checked'', HAS_BOOLEAN_VALUE OR HAS_NUMERIC_VALUE)] \<rparr>
          initialProperties) = Some (ValueCombination ''checked'') \<and>
   fst ` set (propertiesOf \<lparr> Properties = Some [(''autoReverse'', 0)] \<rparr>) \<inter>
   fst ` set (propertiesOf \<lparr> Properties = Some [(''title'', 0)] \<rparr>) = {} \<and>
   fst (injectDOMPropertyConfig \<lparr> Properties = Some [(''autoReverse'', 0)] \<rparr>
          initialProperties) = Some (AlreadyInjected ''autoReverse'') \<and>
   initialProperties ''autoReverse'' \<noteq> None \<and>
   fst (injectDOMPropertyConfig
          \<lparr> Properties = Some [(''checked'', HAS_BOOLEAN_VALUE OR HAS_NUMERIC_VALUE),
                                (''autoReverse'', 0)] \<rparr>
          initialProperties) = Some (ValueCombination ''checked'')"
  using several_BOOLEAN_NUMERIC initialProperties_autoReverse
  by (simp add: injectDOMPropertyConfig_def propertiesOf_def injectProperties_Cons
      initialProperties_checked initialProperties_plain del: injectProperties.simps(2))

section \<open>The attribute name caches\<close>

lemma regex_hasOwnProperty: "VALID_ATTRIBUTE_NAME_REGEX_test ''hasOwnProperty''"
  by (simp add: VALID_ATTRIBUTE_NAME_REGEX_test_def ATTRIBUTE_NAME_START_CHAR_def
      ATTRIBUTE_NAME_CHAR_def)

lemma regex_proto: "VALID_ATTRIBUTE_NAME_REGEX_test ''__proto__''"
  by (simp add: VALID_ATTRIBUTE_NAME_REGEX_test_def ATTRIBUTE_NAME_START_CHAR_def
      ATTRIBUTE_NAME_CHAR_def)

lemma regex_data_x: "VALID_ATTRIBUTE_NAME_REGEX_test ''data-x''"
  by (simp add: VALID_ATTRIBUTE_NAME_REGEX_test_def ATTRIBUTE_NAME_START_CHAR_def
      ATTRIBUTE_NAME_CHAR_def)

lemma regex_1bad: "\<not> VALID_ATTRIBUTE_NAME_REGEX_test ''1bad-name''"
  by (simp add: VALID_ATTRIBUTE_NAME_REGEX_test_def ATTRIBUTE_NAME_START_CHAR_def
      ATTRIBUTE_NAME_CHAR_def)

lemma isAttributeNameSafe_consistent:
  assumes "cachesConsistent s"
  shows "fst (isAttributeNameSafe attributeName s) =
      Inr (VALID_ATTRIBUTE_NAME_REGEX_test attributeName)"
    and "attributeName \<noteq> ''hasOwnProperty'' \<Longrightarrow>
      cachesConsistent (snd (isAttributeNameSafe attributeName s))"
proof -
  from assms(1) have v: "validatedAttributeNameCache s ''hasOwnProperty'' = None"
    and valid: "\<And>key b. validatedAttributeNameCache s key = Some b \<Longrightarrow>
      VALID_ATTRIBUTE_NAME_REGEX_test key"
    and illegal: "\<And>key b. illegalAttributeNameCache s key = Some b \<Longrightarrow>
      \<not> VALID_ATTRIBUTE_NAME_REGEX_test key"
    by (auto simp: cachesConsistent_def)
  have i: "illegalAttributeNameCache s ''hasOwnProperty'' = None"
    using illegal [of "''hasOwnProperty''"] regex_hasOwnProperty
    by (cases "illegalAttributeNameCache s ''hasOwnProperty''") auto
  show "fst (isAttributeNameSafe attributeName s) =
      Inr (VALID_ATTRIBUTE_NAME_REGEX_test attributeName)"
    using v i valid [of attributeName] illegal [of attributeName]
    by (cases "validatedAttributeNameCache s attributeName";
        cases "illegalAttributeNameCache s attributeName")
      (auto simp: isAttributeNameSafe_def hasOwnProperty_def Let_def)
  show "cachesConsistent (snd (isAttributeNameSafe attributeName s))"
    if "attributeName \<noteq> ''hasOwnProperty''"
    using v i valid illegal that
    by (cases "validatedAttributeNameCache s attributeName";
        cases "illegalAttributeNameCache s attributeName")
      (auto simp: isAttributeNameSafe_def hasOwnProperty_def Let_def cachesConsistent_def
        assignTrue_def split: if_splits)
qed

lemma fold_isAttributeNameSafe_consistent:
  "cachesConsistent s \<Longrightarrow> ''hasOwnProperty'' \<notin> set names \<Longrightarrow>
   cachesConsistent (fold (\<lambda>name s. snd (isAttributeNameSafe name s)) names s)"
proof (induction names arbitrary: s)
  case Nil
  then show ?case by simp
next
  case (Cons name names)
  from Cons.prems have "cachesConsistent (snd (isAttributeNameSafe name s))"
    by (auto intro: isAttributeNameSafe_consistent(2))
  with Cons show ?case by simp
qed

lemma cachesAfter_consistent:
  "''hasOwnProperty'' \<notin> set names \<Longrightarrow> cachesConsistent (cachesAfter names)"
  unfolding cachesAfter_def
  by (rule fold_isAttributeNameSafe_consistent) (simp_all add: cachesConsistent_def emptyCaches_def)

text \<open>
  While the name \<open>hasOwnProperty\<close> has not been checked, every check answers with the
  verdict of the pattern, the pattern has run at most once on every name other than
  \<open>__proto__\<close>, and checking such a name again does not run it.
\<close>

lemma cachesAfter_snoc:
  "cachesAfter (names @ [name]) = snd (isAttributeNameSafe name (cachesAfter names))"
  by (simp add: cachesAfter_def)

lemma isAttributeNameSafe_tests:
  assumes "cachesConsistent s"
  shows "regexTests (snd (isAttributeNameSafe attributeName s)) =
      (if validatedAttributeNameCache s attributeName = None \<and>
          illegalAttributeNameCache s attributeName = None
       then regexTests s @ [attributeName] else regexTests s)"
    and "key \<noteq> ''__proto__'' \<Longrightarrow>
      (validatedAttributeNameCache (snd (isAttributeNameSafe attributeName s)) key \<noteq> None \<or>
       illegalAttributeNameCache (snd (isAttributeNameSafe attributeName s)) key \<noteq> None) \<longleftrightarrow>
      (key = attributeName \<or> validatedAttributeNameCache s key \<noteq> None \<or>
       illegalAttributeNameCache s key \<noteq> None)"
proof -
  from assms have v: "validatedAttributeNameCache s ''hasOwnProperty'' = None"
    and illegal: "\<And>key b. illegalAttributeNameCache s key = Some b \<Longrightarrow>
      \<not> VALID_ATTRIBUTE_NAME_REGEX_test key"
    by (auto simp: cachesConsistent_def)
  have i: "illegalAttributeNameCache s ''hasOwnProperty'' = None"
    using illegal [of "''hasOwnProperty''"] regex_hasOwnProperty
    by (cases "illegalAttributeNameCache s ''hasOwnProperty''") auto
  show "regexTests (snd (isAttributeNameSafe attributeName s)) =
      (if validatedAttributeNameCache s attributeName = None \<and>
          illegalAttributeNameCache s attributeName = None
       then regexTests s @ [attributeName] else regexTests s)"
    using v i
    by (cases "validatedAttributeNameCache s attributeName";
        cases "illegalAttributeNameCache s attributeName")
      (auto simp: isAttributeNameSafe_def hasOwnProperty_def Let_def)
  show "(validatedAttributeNameCache (snd (isAttributeNameSafe attributeName s)) key \<noteq> None \<or>
       illegalAttributeNameCache (snd (isAttributeNameSafe attributeName s)) key \<noteq> None) \<longleftrightarrow>
      (key = attributeName \<or> validatedAttributeNameCache s key \<noteq> None \<or>
       illegalAttributeNameCache s key \<noteq> None)"
    if "key \<noteq> ''__proto__''"
    using v i that
    by (cases "validatedAttributeNameCache s attributeName";
        cases "illegalAttributeNameCache s attributeName")
      (auto simp: isAttributeNameSafe_def hasOwnProperty_def Let_def assignTrue_def)
qed

lemma cachesAfter_tests:
  "''hasOwnProperty'' \<notin> set names \<Longrightarrow> key \<noteq> ''__proto__'' \<Longrightarrow>
   ((validatedAttributeNameCache (cachesAfter names) key \<noteq> None \<or>
     illegalAttributeNameCache (cachesAfter names) key \<noteq> None) \<longleftrightarrow> key \<in> set names) \<and>
   count_list (regexTests (cachesAfter names)) key = (if key \<in> set names then 1 else 0)"
proof (induction names rule: rev_induct)
  case Nil
  show ?case by (simp add: cachesAfter_def emptyCaches_def)
next
  case (snoc name names)
  from snoc.prems(1) have notin: "''hasOwnProperty'' \<notin> set names" by simp
  then have consistent: "cachesConsistent (cachesAfter names)" by (rule cachesAfter_consistent)
  from snoc.IH [OF notin snoc.prems(2)]
  have cached: "(validatedAttributeNameCache (cachesAfter names) key \<noteq> None \<or>
      illegalAttributeNameCache (cachesAfter names) key \<noteq> None) \<longleftrightarrow> key \<in> set names"
    and counted: "count_list (regexTests (cachesAfter names)) key =
      (if key \<in> set names then 1 else 0)"
    by blast+
  have "(validatedAttributeNameCache (cachesAfter (names @ [name])) key \<noteq> None \<or>
      illegalAttributeNameCache (cachesAfter (names @ [name])) key \<noteq> None) \<longleftrightarrow>
      key \<in> set (names @ [name])"
    using isAttributeNameSafe_tests(2) [OF consistent snoc.prems(2), of name] cached
    by (auto simp: cachesAfter_snoc)
  moreover
  have "count_list (regexTests (cachesAfter (names @ [name]))) key =
      (if key \<in> set (names @ [name]) then 1 else 0)"
  proof (cases "key = name")
    case True
    with cached counted show ?thesis
      by (auto simp: cachesAfter_snoc isAttributeNameSafe_tests(1) [OF consistent])
  next
    case False
    with counted show ?thesis
      by (simp add: cachesAfter_snoc isAttributeNameSafe_tests(1) [OF consistent])
  qed
  ultimately show ?case by blast
qed

lemma isAttributeNameSafe_cached_once:
  assumes "''hasOwnProperty'' \<notin> set names"
  shows "fst (isAttributeNameSafe name (cachesAfter names)) =
      Inr (VALID_ATTRIBUTE_NAME_REGEX_test name)"
    and "name \<noteq> ''__proto__'' \<Longrightarrow> count_list (regexTests (cachesAfter names)) name \<le> 1"
    and "name \<noteq> ''__proto__'' \<Longrightarrow> name \<in> set names \<Longrightarrow>
      regexTests (snd (isAttributeNameSafe name (cachesAfter names))) =
      regexTests (cachesAfter names)"
proof -
  from assms have consistent: "cachesConsistent (cachesAfter names)"
    by (rule cachesAfter_consistent)
  then show "fst (isAttributeNameSafe name (cachesAfter names)) =
      Inr (VALID_ATTRIBUTE_NAME_REGEX_test name)"
    by (rule isAttributeNameSafe_consistent(1))
  show "count_list (regexTests (cachesAfter names)) name \<le> 1" if "name \<noteq> ''__proto__''"
    using cachesAfter_tests [OF assms that] by simp
  show "regexTests (snd (isAttributeNameSafe name (cachesAfter names))) =
      regexTests (cachesAfter names)"
    if "name \<noteq> ''__proto__''" and "name \<in> set names"
    using cachesAfter_tests [OF assms that(1)] that(2)
    by (auto simp: isAttributeNameSafe_tests(1) [OF consistent])
qed

text \<open>
  When \<open>isAttributeNameSafe\<close> answers for the name, \<open>createMarkupForCustomAttribute\<close>
  returns the empty string if the answer is false or the value is \<open>null\<close> or
  \<open>undefined\<close>, and otherwise the name as given (no attribute name is looked up), \<open>=\<close>
  and the quoted value. \<open>isAttributeNameSafe\<close> answers with the verdict of the pattern
  in every state of the caches that checking names other than \<open>hasOwnProperty\<close> leads
  to; there \<open>createMarkupForCustomAttribute('data-x', null)\<close> is the empty string, and
  \<open>createMarkupForCustomAttribute('data-x', 'v')\<close> is \<open>data-x="v"\<close> when the value \<open>v\<close> is
  quoted as \<open>"v"\<close>.
\<close>

lemma createMarkupForCustomAttribute_answered:
  "(isAttributeNameSafe name s = (Inr safe, s') \<longrightarrow>
      createMarkupForCustomAttribute quote name value s =
        (Inr (if \<not> safe \<or> value = JNull \<or> value = JUndefined then []
              else name @ ''='' @ quote value), s')) \<and>
   (''hasOwnProperty'' \<notin> set names \<longrightarrow>
      fst (createMarkupForCustomAttribute quote name value (cachesAfter names)) =
        Inr (if \<not> VALID_ATTRIBUTE_NAME_REGEX_test name \<or> value = JNull \<or> value = JUndefined
             then [] else name @ ''='' @ quote value) \<and>
      fst (createMarkupForCustomAttribute quote ''data-x'' JNull (cachesAfter names)) = Inr [] \<and>
      (quote (JString ''v'') = [CHR 0x22, CHR ''v'', CHR 0x22] \<longrightarrow>
         fst (createMarkupForCustomAttribute quote ''data-x'' (JString ''v'') (cachesAfter names)) =
           Inr (''data-x='' @ [CHR 0x22, CHR ''v'', CHR 0x22])))"
proof -
  have given: "createMarkupForCustomAttribute quote name value s =
        (Inr (if \<not> safe \<or> value = JNull \<or> value = JUndefined then []
              else name @ ''='' @ quote value), s')"
    if "isAttributeNameSafe name s = (Inr safe, s')"
    using that by (simp add: createMarkupForCustomAttribute_def)
  have reached: "fst (createMarkupForCustomAttribute quote n v (cachesAfter names)) =
        Inr (if \<not> VALID_ATTRIBUTE_NAME_REGEX_test n \<or> v = JNull \<or> v = JUndefined
             then [] else n @ ''='' @ quote v)"
    if "''hasOwnProperty'' \<notin> set names" for n and v :: "'a jsvalue"
  proof -
    from that have "cachesConsistent (cachesAfter names)" by (rule cachesAfter_consistent)
    then have "fst (isAttributeNameSafe n (cachesAfter names)) =
        Inr (VALID_ATTRIBUTE_NAME_REGEX_test n)"
      by (rule isAttributeNameSafe_consistent(1))
    then show ?thesis
      by (cases "isAttributeNameSafe n (cachesAfter names)")
        (simp add: createMarkupForCustomAttribute_def)
  qed
  from reached [of "''data-x''" JNull] reached [of "''data-x''" "JString ''v''"]
  have examples: "fst (createMarkupForCustomAttribute quote ''data-x'' JNull (cachesAfter names)) = Inr []"
    "quote (JString ''v'') = [CHR 0x22, CHR ''v'', CHR 0x22] \<Longrightarrow>
         fst (createMarkupForCustomAttribute quote ''data-x'' (JString ''v'') (cachesAfter names)) =
           Inr (''data-x='' @ [CHR 0x22, CHR ''v'', CHR 0x22])"
    if "''hasOwnProperty'' \<notin> set names"
    using that regex_data_x by simp_all
  from given reached [of name "value"] examples show ?thesis by blast
qed

text \<open>
  C9. The claim fails on the code. \<open>!isAttributeNameSafe(name) || value == null\<close> checks
  the name before it looks at the value, so after a check of the name
  \<open>hasOwnProperty\<close> the call \<open>createMarkupForCustomAttribute('data-x', null)\<close> throws a
  \<open>TypeError\<close> instead of returning the empty string.
\<close>

theorem createMarkupForCustomAttribute_null_throws:
  "VALID_ATTRIBUTE_NAME_REGEX_test ''data-x'' \<and>
   fst (createMarkupForCustomAttribute quote ''data-x'' JNull emptyCaches) = Inr [] \<and>
   fst (createMarkupForCustomAttribute quote ''data-x'' JNull (cachesAfter [''hasOwnProperty''])) =
     Inl TypeError \<and>
   fst (createMarkupForCustomAttribute quote ''data-x'' JUndefined (cachesAfter [''hasOwnProperty''])) =
     Inl TypeError"
  using regex_hasOwnProperty regex_data_x
  by (simp add: createMarkupForCustomAttribute_def cachesAfter_def isAttributeNameSafe_def
      hasOwnProperty_def assignTrue_def emptyCaches_def Let_def)

theorem createMarkupForCustomAttribute_null_throws_witness:
  "fst (createMarkupForCustomAttribute (\<lambda>v. [CHR 0x22, CHR ''v'', CHR 0x22]) ''data-x''
          (JNull :: unit jsvalue) (cachesAfter [''hasOwnProperty''])) = Inl TypeError"
  using createMarkupForCustomAttribute_null_throws
    [of "\<lambda>v :: unit jsvalue. [CHR 0x22, CHR ''v'', CHR 0x22]"]
  by simp

section \<open>Markup generation\<close>

lemma createMarkupForRoot_markup:
  "createMarkupForRoot = ''data-reactroot='' @ [CHR 0x22, CHR 0x22]"
  by (simp add: createMarkupForRoot_def ROOT_ATTRIBUTE_NAME_def)

lemma createMarkupForID_markup:
  "createMarkupForID quote ident = ''data-reactid='' @ quote ident"
  by (simp add: createMarkupForID_def ID_ATTRIBUTE_NAME_def)

text \<open>
  \<open>createMarkupForProperty\<close> returns \<open>null\<close> when \<open>shouldSetAttribute\<close> returns false, and
  throws a \<open>TypeError\<close> when it returns true: \<open>DOMProperty.shouldIgnoreValue\<close> is
  \<open>undefined\<close>.
\<close>

lemma createMarkupForProperty_result:
  "shouldSetAttribute props name value = Inr False \<Longrightarrow>
   createMarkupForProperty quote props name value = Inr None"
  "shouldSetAttribute props name value = Inr True \<Longrightarrow>
   createMarkupForProperty quote props name value = Inl TypeError"
  by (simp_all add: createMarkupForProperty_def DOMProperty_shouldIgnoreValue_def)

text \<open>
  C1. The claim fails on the code. For the name \<open>title\<close> and the value \<open>'x'\<close>,
  \<open>shouldSetAttribute\<close> returns true, and the call of \<open>DOMProperty.shouldIgnoreValue\<close>,
  a method the \<open>DOMProperty\<close> object does not have, throws a \<open>TypeError\<close>: no markup is
  returned, for this or any other name and value that \<open>shouldSetAttribute\<close> accepts.
\<close>

theorem createMarkupForProperty_throws:
  "shouldSetAttribute initialProperties ''title'' (JString ''x'' :: 'x jsvalue) = Inr True \<and>
   createMarkupForProperty (quote :: 'x jsvalue \<Rightarrow> string) initialProperties ''title''
     (JString ''x'') = Inl TypeError \<and>
   createMarkupForProperty quote initialProperties ''className'' (JString ''x'') = Inl TypeError \<and>
   createMarkupForProperty quote initialProperties ''onClick'' (JFunction f) = Inr None"
proof -
  have "\<not> isReservedProp ''title''" "\<not> isReservedProp ''className''"
    by (simp_all add: isReservedProp_def RESERVED_PROPS_def)
  then have "shouldSetAttribute initialProperties ''title'' (JString ''x'' :: 'x jsvalue) = Inr True"
    "shouldSetAttribute initialProperties ''className'' (JString ''x'' :: 'x jsvalue) = Inr True"
    "shouldSetAttribute initialProperties ''onClick'' (JFunction f :: 'x jsvalue) = Inr False"
    by (simp_all add: shouldSetAttribute_def)
  then show ?thesis
    by (simp add: createMarkupForProperty_result)
qed

text \<open>
  C7. The claim fails on the code. \<open>hasOwnProperty\<close> matches the pattern, so the first
  check of that name answers true and stores the key \<open>hasOwnProperty\<close> in the cache of
  validated names; from then on \<open>validatedAttributeNameCache.hasOwnProperty(...)\<close> calls
  the stored \<open>true\<close>, and every later check, of this name or another, throws a
  \<open>TypeError\<close>. And the key \<open>__proto__\<close> is never stored, so the pattern runs again
  on every check of that name.
\<close>

theorem isAttributeNameSafe_poisoned:
  "VALID_ATTRIBUTE_NAME_REGEX_test ''hasOwnProperty'' \<and>
   fst (isAttributeNameSafe ''hasOwnProperty'' emptyCaches) = Inr True \<and>
   fst (isAttributeNameSafe ''hasOwnProperty'' (cachesAfter [''hasOwnProperty''])) = Inl TypeError \<and>
   fst (isAttributeNameSafe ''data-foo'' (cachesAfter [''hasOwnProperty''])) = Inl TypeError \<and>
   regexTests (cachesAfter [''__proto__'', ''__proto__'']) = [''__proto__'', ''__proto__'']"
  using regex_hasOwnProperty regex_proto
  by (simp add: cachesAfter_def isAttributeNameSafe_def hasOwnProperty_def assignTrue_def
      emptyCaches_def Let_def)

text \<open>
  C2. The claim fails on the code: after \<open>createMarkupForCustomAttribute\<close> has been
  called with the name \<open>hasOwnProperty\<close>, a call with the name \<open>data-x\<close> throws a
  \<open>TypeError\<close> instead of returning markup or the empty string.
\<close>

theorem createMarkupForCustomAttribute_throws:
  "fst (createMarkupForCustomAttribute quote ''hasOwnProperty'' (JString ''v'') emptyCaches) =
     Inr (''hasOwnProperty='' @ quote (JString ''v'')) \<and>
   fst (createMarkupForCustomAttribute quote ''data-x'' (JString ''v'')
          (snd (createMarkupForCustomAttribute quote ''hasOwnProperty'' (JString ''v'') emptyCaches))) =
     Inl TypeError"
  using regex_hasOwnProperty
  by (simp add: createMarkupForCustomAttribute_def isAttributeNameSafe_def hasOwnProperty_def
      assignTrue_def emptyCaches_def Let_def)

theorem createMarkupForCustomAttribute_throws_witness:
  "fst (createMarkupForCustomAttribute (\<lambda>v. [CHR 0x22, CHR ''v'', CHR 0x22]) ''data-x''
          (JString ''v'' :: unit jsvalue)
          (snd (createMarkupForCustomAttribute (\<lambda>v. [CHR 0x22, CHR ''v'', CHR 0x22])
                  ''hasOwnProperty'' (JString ''v'' :: unit jsvalue) emptyCaches))) =
     Inl TypeError"
  using createMarkupForCustomAttribute_throws [of "\<lambda>v :: unit jsvalue. [CHR 0x22, CHR ''v'', CHR 0x22]"]
  by simp

end
